theory Spec2Isabelle
  imports Main "HOL-Library.Multiset"
begin

section \<open>Data model\<close>

text \<open>
  A parameter value of a node, as \<^verbatim>\<open>app.js\<close> stores it in \<^verbatim>\<open>node.params\<close>: a string, a
  number or \<^verbatim>\<open>null\<close>. A number is kept by the text JavaScript prints for it (its
  \<^verbatim>\<open>ToString\<close>, which is all the emitter ever does with it), so that fractional values
  need no floating point; a key that is missing from the object reads as
  \<^verbatim>\<open>undefined\<close>, which is \<open>None\<close> of the lookup.
\<close>

datatype pval = PStr string | PNum string | PNull

type_synonym params = "(string \<times> pval) list"

text \<open>
  A node of the forest. \<^verbatim>\<open>children\<close> is \<open>None\<close> when the JavaScript object has no
  \<^verbatim>\<open>children\<close> property and \<open>Some cs\<close> when it has an array. The display-only
  fields of the object (\<^verbatim>\<open>name\<close>, \<^verbatim>\<open>icon\<close>, \<^verbatim>\<open>category\<close>, \<^verbatim>\<open>description\<close>) are
  read by the rendering code only and are left out.
\<close>

datatype node =
  Node (nid: string) (toolId: string) (params: params) (children: "node list option")

text \<open>The global \<^verbatim>\<open>state\<close> object.\<close>

record state =
  tree :: "node list"
  collapsed :: "string set"
  expanded :: "string set"
  targetParentId :: string
  showGCode :: bool

text \<open>
  An index argument: a JavaScript integer, or \<^verbatim>\<open>Infinity\<close>, the default of
  \<^verbatim>\<open>insertNode\<close> and \<^verbatim>\<open>moveNode\<close>.
\<close>

datatype jsindex = Idx int | PosInf

section \<open>Tree utilities\<close>

text \<open>
  \<^verbatim>\<open>walk(list, fn, parent)\<close>: pre-order traversal that stops as soon as the callback
  returns \<^verbatim>\<open>true\<close>. The callbacks of the source assign to a variable of the enclosing
  function; that variable is the state \<open>'s\<close> threaded through the traversal.
\<close>

fun walk :: "node list \<Rightarrow> (node \<Rightarrow> node option \<Rightarrow> 's \<Rightarrow> bool \<times> 's) \<Rightarrow> node option \<Rightarrow> 's \<Rightarrow> bool \<times> 's"
where
  "walk [] fn parent s = (False, s)"
| "walk (Node i t p c # rest) fn parent s =
     (case fn (Node i t p c) parent s of
        (True, s1) \<Rightarrow> (True, s1)
      | (False, s1) \<Rightarrow>
          (case c of
             None \<Rightarrow> walk rest fn parent s1
           | Some cs \<Rightarrow>
               (case walk cs fn (Some (Node i t p c)) s1 of
                  (True, s2) \<Rightarrow> (True, s2)
                | (False, s2) \<Rightarrow> walk rest fn parent s2)))"

definition getNode :: "string \<Rightarrow> node list \<Rightarrow> node option" where
  "getNode ident tr =
     snd (walk tr (\<lambda>n parent out. if nid n = ident then (True, Some n) else (False, out)) None None)"

definition getParent :: "string \<Rightarrow> node list \<Rightarrow> node option" where
  "getParent ident tr =
     snd (walk tr (\<lambda>n parent p. if nid n = ident then (True, parent) else (False, p)) None None)"

text \<open>\<^verbatim>\<open>Array.prototype.findIndex\<close>; \<open>None\<close> is the source's \<^verbatim>\<open>-1\<close>.\<close>

fun findIndex :: "('a \<Rightarrow> bool) \<Rightarrow> 'a list \<Rightarrow> nat option" where
  "findIndex P [] = None"
| "findIndex P (x # xs) = (if P x then Some 0 else map_option Suc (findIndex P xs))"

text \<open>
  \<^verbatim>\<open>removeNode(id, list)\<close>: looks at the whole level first, then descends into the
  children of each node in order. It returns the detached node and the list as the
  in-place \<^verbatim>\<open>splice\<close> leaves it. \<open>removeIn\<close> is the \<^verbatim>\<open>for\<close> loop of the source.
\<close>

fun removeNode :: "string \<Rightarrow> node list \<Rightarrow> node option \<times> node list"
and removeIn :: "string \<Rightarrow> node list \<Rightarrow> node option \<times> node list"
where
  "removeNode ident list =
     (case findIndex (\<lambda>n. nid n = ident) list of
        Some i \<Rightarrow> (Some (list ! i), take i list @ drop (Suc i) list)
      | None \<Rightarrow> removeIn ident list)"
| "removeIn ident [] = (None, [])"
| "removeIn ident (Node i t p None # rest) =
     (case removeIn ident rest of (r, rest') \<Rightarrow> (r, Node i t p None # rest'))"
| "removeIn ident (Node i t p (Some cs) # rest) =
     (case removeNode ident cs of
        (Some r, cs') \<Rightarrow> (Some r, Node i t p (Some cs') # rest)
      | (None, cs') \<Rightarrow>
          (case removeIn ident rest of (r, rest') \<Rightarrow> (r, Node i t p (Some cs) # rest')))"

declare removeNode.simps [simp del]

text \<open>
  \<^verbatim>\<open>list.splice(index, 0, node)\<close> after the source's own
  \<^verbatim>\<open>if (index > list.length) index = list.length\<close>. The source clamps from above only;
  \<^verbatim>\<open>splice\<close> itself counts a negative start from the end of the array and stops at 0.
\<close>

definition spliceStart :: "jsindex \<Rightarrow> nat \<Rightarrow> nat" where
  "spliceStart index len =
     (case index of
        PosInf \<Rightarrow> len
      | Idx k \<Rightarrow>
          (let k' = (if k > int len then int len else k)
           in if k' < 0 then nat (max (int len + k') 0) else nat (min k' (int len))))"

definition spliceIn :: "jsindex \<Rightarrow> 'a \<Rightarrow> 'a list \<Rightarrow> 'a list" where
  "spliceIn index x list =
     (let k = spliceStart index (length list) in take k list @ x # drop k list)"

text \<open>
  \<^verbatim>\<open>getNode\<close> returns a reference into the forest and the caller assigns through it.
  The forest holds every node once, so the assignment is the forest rebuilt with the first
  node of that id, in the order of \<^verbatim>\<open>walk\<close>, replaced by \<open>f\<close> of it; the flag tells
  whether a node was found.
\<close>

fun mutateNode :: "string \<Rightarrow> (node \<Rightarrow> node) \<Rightarrow> node list \<Rightarrow> bool \<times> node list" where
  "mutateNode ident f [] = (False, [])"
| "mutateNode ident f (Node i t p c # rest) =
     (if i = ident then (True, f (Node i t p c) # rest)
      else (case c of
              None \<Rightarrow> (case mutateNode ident f rest of (b, rest') \<Rightarrow> (b, Node i t p c # rest'))
            | Some cs \<Rightarrow>
                (case mutateNode ident f cs of
                   (True, cs') \<Rightarrow> (True, Node i t p (Some cs') # rest)
                 | (False, cs') \<Rightarrow>
                     (case mutateNode ident f rest of
                        (b, rest') \<Rightarrow> (b, Node i t p c # rest')))))"

text \<open>
  \<^verbatim>\<open>insertNode(node, parentId, index)\<close>. \<^verbatim>\<open>!parentId\<close> holds of the empty string. The
  body applied to the parent is \<^verbatim>\<open>if (!parent.children) parent.children = []\<close> followed by
  the clamped \<^verbatim>\<open>splice\<close>.
\<close>

definition insertInto :: "node \<Rightarrow> jsindex \<Rightarrow> node \<Rightarrow> node" where
  "insertInto n index parent =
     (case parent of Node i t p c \<Rightarrow>
        Node i t p (Some (spliceIn index n (case c of None \<Rightarrow> [] | Some cs \<Rightarrow> cs))))"

definition insertNode :: "node \<Rightarrow> string \<Rightarrow> jsindex \<Rightarrow> node list \<Rightarrow> node list" where
  "insertNode n parentId index tr =
     (if parentId = ''root'' \<or> parentId = [] then spliceIn index n tr
      else (case getNode parentId tr of
              None \<Rightarrow> tr
            | Some parent \<Rightarrow> snd (mutateNode parentId (insertInto n index) tr)))"

text \<open>\<^verbatim>\<open>isDescendant(maybeAncestorId, id)\<close>; \<^verbatim>\<open>anc?.children || []\<close> is the list walked.\<close>

definition isDescendant :: "string \<Rightarrow> string \<Rightarrow> node list \<Rightarrow> bool" where
  "isDescendant maybeAncestorId ident tr =
     (let kids = (case getNode maybeAncestorId tr of
                    None \<Rightarrow> []
                  | Some anc \<Rightarrow> (case children anc of None \<Rightarrow> [] | Some cs \<Rightarrow> cs))
      in snd (walk kids (\<lambda>n parent found. if nid n = ident then (True, True) else (False, found))
                None False))"

section \<open>Mutations\<close>

text \<open>
  \<^verbatim>\<open>moveNode(id, targetParentId, index)\<close> on the forest; \<^verbatim>\<open>save\<close> and \<^verbatim>\<open>renderAll\<close>
  touch storage and the page only.
\<close>

definition moveNode :: "string \<Rightarrow> string \<Rightarrow> jsindex \<Rightarrow> node list \<Rightarrow> node list" where
  "moveNode ident targetParent index tr =
     (if ident = targetParent then tr
      else if targetParent \<noteq> ''root'' \<and> isDescendant ident targetParent tr then tr
      else (case removeNode ident tr of
              (None, tr') \<Rightarrow> tr
            | (Some n, tr') \<Rightarrow> insertNode n targetParent index tr'))"

text \<open>
  \<^verbatim>\<open>deleteNode(id)\<close>; \<open>ok\<close> is the answer of \<^verbatim>\<open>window.confirm\<close>.
\<close>

definition deleteNode :: "string \<Rightarrow> bool \<Rightarrow> state \<Rightarrow> state" where
  "deleteNode ident ok st =
     (case getNode ident (tree st) of
        None \<Rightarrow> st
      | Some n \<Rightarrow>
          if \<not> ok then st
          else st\<lparr>tree := snd (removeNode ident (tree st)),
                  expanded := expanded st - {ident},
                  collapsed := collapsed st - {ident}\<rparr>)"

section \<open>Tools registry\<close>

text \<open>
  The entries of \<^verbatim>\<open>TOOLS\<close>, their \<^verbatim>\<open>id\<close> and \<^verbatim>\<open>container\<close> fields.
\<close>

datatype tool =
  Folder | IfBlock | WhileBlock | SetWorkOffset | ToolChange | RapidMove
  | SingleTouchAxis | WebPocket | SafeApproach

fun toolKey :: "tool \<Rightarrow> string" where
  "toolKey Folder = ''folder''"
| "toolKey IfBlock = ''if-block''"
| "toolKey WhileBlock = ''while-block''"
| "toolKey SetWorkOffset = ''set-work-offset''"
| "toolKey ToolChange = ''tool-change''"
| "toolKey RapidMove = ''rapid-move''"
| "toolKey SingleTouchAxis = ''single-touch-axis''"
| "toolKey WebPocket = ''web-pocket''"
| "toolKey SafeApproach = ''safe-approach''"

fun container :: "tool \<Rightarrow> bool" where
  "container Folder = True"
| "container IfBlock = True"
| "container WhileBlock = True"
| "container SetWorkOffset = False"
| "container ToolChange = False"
| "container RapidMove = False"
| "container SingleTouchAxis = False"
| "container WebPocket = False"
| "container SafeApproach = False"

definition TOOLS :: "tool list" where
  "TOOLS = [Folder, IfBlock, WhileBlock, SetWorkOffset, ToolChange, RapidMove,
            SingleTouchAxis, WebPocket, SafeApproach]"

text \<open>
  \<^verbatim>\<open>TOOL_BY_ID\<close> is a plain object built by \<^verbatim>\<open>Object.fromEntries\<close>, and
  \<^verbatim>\<open>TOOL_BY_ID[key]\<close> also finds what the object inherits from \<^verbatim>\<open>Object.prototype\<close>:
  for those keys the lookup yields a function (or the prototype object), which is truthy
  and has neither a \<^verbatim>\<open>gcode\<close> nor a \<^verbatim>\<open>container\<close> property. \<open>None\<close> is
  \<^verbatim>\<open>undefined\<close>.
\<close>

datatype entry = Tool tool | Inherited

definition objectPrototypeKeys :: "string list" where
  "objectPrototypeKeys =
     [''constructor'', ''__defineGetter__'', ''__defineSetter__'', ''hasOwnProperty'',
      ''__lookupGetter__'', ''__lookupSetter__'', ''isPrototypeOf'',
      ''propertyIsEnumerable'', ''toString'', ''valueOf'', ''__proto__'',
      ''toLocaleString'']"

definition TOOL_BY_ID :: "string \<Rightarrow> entry option" where
  "TOOL_BY_ID key =
     (case map_of (map (\<lambda>t. (toolKey t, t)) TOOLS) key of
        Some t \<Rightarrow> Some (Tool t)
      | None \<Rightarrow> if key \<in> set objectPrototypeKeys then Some Inherited else None)"

text \<open>\<^verbatim>\<open>!!TOOL_BY_ID[toolId]?.container\<close>.\<close>

definition isContainer :: "string \<Rightarrow> bool" where
  "isContainer key = (case TOOL_BY_ID key of Some (Tool t) \<Rightarrow> container t | _ \<Rightarrow> False)"

section \<open>JavaScript strings\<close>

text \<open>
  A string is its UTF-8 bytes. \<open>tpl\<close> is what a template literal prints for a
  parameter; \<open>truthy\<close> is JavaScript's truthiness of it.
\<close>

fun tpl :: "pval option \<Rightarrow> string" where
  "tpl None = ''undefined''"
| "tpl (Some PNull) = ''null''"
| "tpl (Some (PStr s)) = s"
| "tpl (Some (PNum s)) = s"

fun truthy :: "pval option \<Rightarrow> bool" where
  "truthy None = False"
| "truthy (Some PNull) = False"
| "truthy (Some (PStr s)) = (s \<noteq> [])"
| "truthy (Some (PNum s)) = (s \<noteq> ''0'' \<and> s \<noteq> ''NaN'')"

text \<open>
  \<^verbatim>\<open>String.prototype.toUpperCase\<close> on the ASCII letters; bytes outside ASCII are left
  as they are.
\<close>

definition upperChar :: "char \<Rightarrow> char" where
  "upperChar c =
     (case map_of (zip ''abcdefghijklmnopqrstuvwxyz'' ''ABCDEFGHIJKLMNOPQRSTUVWXYZ'') c of
        Some u \<Rightarrow> u
      | None \<Rightarrow> c)"

definition toUpperCase :: "string \<Rightarrow> string" where
  "toUpperCase s = map upperChar s"

text \<open>\<^verbatim>\<open>Number.prototype.toString\<close> of a non-negative integer.\<close>

definition digitChar :: "nat \<Rightarrow> char" where
  "digitChar d = ''0123456789'' ! d"

fun showNat :: "nat \<Rightarrow> string" where
  "showNat n = (if n < 10 then [digitChar n] else showNat (n div 10) @ [digitChar (n mod 10)])"

declare showNat.simps [simp del]

text \<open>\<^verbatim>\<open>Array.prototype.join\<close>.\<close>

fun joinWith :: "string \<Rightarrow> string list \<Rightarrow> string" where
  "joinWith sep [] = []"
| "joinWith sep [x] = x"
| "joinWith sep (x # y # ys) = x @ sep @ joinWith sep (y # ys)"

section \<open>G-code emitter\<close>

text \<open>
  The data fields of the object \<^verbatim>\<open>createEmitContext\<close> returns; its methods are the
  functions below, taking the object they are called on.
\<close>

record EmitContext =
  indent :: nat
  labelSeed :: nat
  loopDepth :: nat

definition createEmitContext :: "nat \<Rightarrow> nat \<Rightarrow> nat \<Rightarrow> EmitContext" where
  "createEmitContext i l d = \<lparr>indent = i, labelSeed = l, loopDepth = d\<rparr>"

definition line :: "EmitContext \<Rightarrow> string \<Rightarrow> string" where
  "line this s = concat (replicate (indent this) ''  '') @ s"

text \<open>\<^verbatim>\<open>nextLabel\<close> returns the label and the object with the counter advanced.\<close>

definition nextLabel :: "EmitContext \<Rightarrow> string \<times> EmitContext" where
  "nextLabel this = (showNat (labelSeed this), this\<lparr>labelSeed := labelSeed this + 1\<rparr>)"

definition loopIndex :: "EmitContext \<Rightarrow> nat" where
  "loopIndex this = min (loopDepth this + 1) 9"

definition indented :: "EmitContext \<Rightarrow> nat \<Rightarrow> EmitContext" where
  "indented this delta =
     createEmitContext (indent this + delta) (labelSeed this)
       (loopDepth this + (if delta > 0 then 1 else 0))"

datatype error = TypeError

text \<open>
  The \<^verbatim>\<open>gcode\<close> callbacks of the tools that have no children. None of them reads the
  context.
\<close>

definition param :: "node \<Rightarrow> string \<Rightarrow> pval option" where
  "param op key = map_of (params op) key"

definition gcodeSetWorkOffset :: "node \<Rightarrow> string list" where
  "gcodeSetWorkOffset op =
     (let s = tpl (param op ''offset'');
          s' = (if param op ''offset'' = Some (PStr ''G154'')
                then s @ '' P'' @ tpl (param op ''P'') else s)
      in [s', []])"

definition gcodeToolChange :: "node \<Rightarrow> string list" where
  "gcodeToolChange op =
     [''T'' @ tpl (param op ''toolNumber'') @ '' M6'',
      ''S'' @ tpl (param op ''spindleSpeed'') @ '' M3'',
      tpl (param op ''coolant''),
      []]"

definition gcodeRapidMove :: "node \<Rightarrow> string list" where
  "gcodeRapidMove op =
     [''G0 X'' @ tpl (param op ''X'') @ '' Y'' @ tpl (param op ''Y'')
        @ '' Z'' @ tpl (param op ''Z''),
      []]"

text \<open>
  A destructuring default replaces \<^verbatim>\<open>undefined\<close> only; \<^verbatim>\<open>String(axis)\<close> prints the
  value as a template literal does.
\<close>

definition orDefault :: "pval option \<Rightarrow> pval \<Rightarrow> pval option" where
  "orDefault v d = (case v of None \<Rightarrow> Some d | Some x \<Rightarrow> Some x)"

definition gcodeSingleTouchAxis :: "node \<Rightarrow> string list" where
  "gcodeSingleTouchAxis op =
     (let axis = orDefault (param op ''axis'') (PStr ''X'');
          distance = orDefault (param op ''distance'') (PNum ''-10'');
          feed = orDefault (param op ''feed'') (PNum ''10'');
          ax = toUpperCase (tpl axis)
      in [''G65 P9811 '' @ ax @ tpl distance @ '' F'' @ tpl feed, []])"

definition gcodeWebPocket :: "node \<Rightarrow> string list" where
  "gcodeWebPocket op =
     (let isPocket = (param op ''mode'' = Some (PStr ''pocket'') \<or>
                      (param op ''mode'' = Some (PStr ''auto'') \<and>
                       param op ''Z'' \<noteq> Some (PStr []) \<and>
                       param op ''Z'' \<noteq> Some PNull \<and>
                       param op ''Z'' \<noteq> None));
          parts = [''G65 P9812'', ''X'' @ tpl (param op ''X''), ''Y'' @ tpl (param op ''Y'')]
                  @ (if isPocket then [''Z'' @ tpl (param op ''Z'')] else [])
                  @ [''W'' @ tpl (param op ''W''), ''L'' @ tpl (param op ''L''),
                     ''F'' @ tpl (param op ''feed'')]
      in [joinWith '' '' parts, []])"

definition gcodeSafeApproach :: "node \<Rightarrow> string list" where
  "gcodeSafeApproach op =
     [''G65 P9810 X'' @ tpl (param op ''X'') @ '' Y'' @ tpl (param op ''Y'')
        @ '' Z'' @ tpl (param op ''Z'') @ '' F'' @ tpl (param op ''feed''),
      []]"

text \<open>
  The folder's \<^verbatim>\<open>(op.params.name || "SECTION").toUpperCase()\<close>: a truthy name that is
  not a string has no \<^verbatim>\<open>toUpperCase\<close> method, and the call throws a \<^verbatim>\<open>TypeError\<close>.
\<close>

definition folderName :: "node \<Rightarrow> error + string" where
  "folderName op =
     (if truthy (param op ''name'')
      then (case param op ''name'' of
              Some (PStr s) \<Rightarrow> Inr (toUpperCase s)
            | _ \<Rightarrow> Inl TypeError)
      else Inr (toUpperCase ''SECTION''))"

text \<open>The comment line of the IF block holds the arrow U+2192, three bytes in UTF-8.\<close>

definition ifComment :: string where
  "ifComment = ''; (IF false '' @ [CHR 0xE2, CHR 0x86, CHR 0x92] @ '' skip children)''"

text \<open>
  \<^verbatim>\<open>emitNode(node, ctx)\<close> hands the callback a copy of the context,
  \<^verbatim>\<open>{...ctx, nextLabel: () => ctx.nextLabel(), loopIndex: () => ctx.loopIndex()}\<close>:
  the copy \<open>w\<close> holds the data fields as they are at the call, and its \<^verbatim>\<open>nextLabel\<close>
  and \<^verbatim>\<open>loopIndex\<close> act on the original object \<open>ctx\<close>. So \<open>gcode\<close> takes both, and
  returns the original as \<^verbatim>\<open>nextLabel\<close> leaves it; \<^verbatim>\<open>emitChildren\<close> is called on the
  copy, whose \<^verbatim>\<open>indented\<close> reads the copy's own fields. Each child gets a context of its
  own, which nothing reads after the child's lines are taken. \<open>emitEach\<close> is the
  \<^verbatim>\<open>for\<close> loop of \<^verbatim>\<open>emitChildren\<close>.
\<close>

function emitNode :: "node \<Rightarrow> EmitContext \<Rightarrow> error + (string list \<times> EmitContext)"
and gcode :: "tool \<Rightarrow> node \<Rightarrow> EmitContext \<Rightarrow> EmitContext \<Rightarrow> error + (string list \<times> EmitContext)"
and emitChildren :: "node \<Rightarrow> EmitContext \<Rightarrow> nat \<Rightarrow> error + string list"
and emitEach :: "node list \<Rightarrow> EmitContext \<Rightarrow> nat \<Rightarrow> error + string list"
where
  "emitNode (Node i t p c) ctx =
     (case TOOL_BY_ID t of
        None \<Rightarrow> Inr ([line ctx (''; Unknown node '' @ t)], ctx)
      | Some Inherited \<Rightarrow> Inr (map (line ctx) [], ctx)
      | Some (Tool def) \<Rightarrow>
          (case gcode def (Node i t p c) ctx ctx of
             Inl e \<Rightarrow> Inl e
           | Inr (raw, ctx') \<Rightarrow> Inr (map (line ctx) raw, ctx')))"
| "gcode Folder op w ctx =
     (case folderName op of
        Inl e \<Rightarrow> Inl e
      | Inr nm \<Rightarrow>
          (case emitChildren op w 0 of
             Inl e \<Rightarrow> Inl e
           | Inr kids \<Rightarrow>
               Inr (['';===== '' @ nm @ '' =====''] @ kids
                    @ ['';===== END '' @ nm @ '' ====='', []], ctx)))"
| "gcode IfBlock op w ctx =
     (case nextLabel ctx of
        (lid, ctx') \<Rightarrow>
          (case emitChildren op w 1 of
             Inl e \<Rightarrow> Inl e
           | Inr kids \<Rightarrow>
               Inr ([''IF ['' @ tpl (param op ''left'') @ '' '' @ tpl (param op ''op'') @ '' ''
                       @ tpl (param op ''right'') @ ''] GOTO '' @ lid,
                     ifComment,
                     ''GOTO '' @ lid @ ''_END'',
                     ''N'' @ lid] @ kids
                    @ [''N'' @ lid @ ''_END'', []], ctx')))"
| "gcode WhileBlock op w ctx =
     (let i = showNat (loopIndex ctx) in
        (case emitChildren op w 1 of
           Inl e \<Rightarrow> Inl e
         | Inr kids \<Rightarrow>
             Inr ([''WHILE ['' @ tpl (param op ''left'') @ '' '' @ tpl (param op ''op'') @ '' ''
                     @ tpl (param op ''right'') @ ''] DO'' @ i] @ kids
                  @ [''END'' @ i, []], ctx)))"
| "gcode SetWorkOffset op w ctx = Inr (gcodeSetWorkOffset op, ctx)"
| "gcode ToolChange op w ctx = Inr (gcodeToolChange op, ctx)"
| "gcode RapidMove op w ctx = Inr (gcodeRapidMove op, ctx)"
| "gcode SingleTouchAxis op w ctx = Inr (gcodeSingleTouchAxis op, ctx)"
| "gcode WebPocket op w ctx = Inr (gcodeWebPocket op, ctx)"
| "gcode SafeApproach op w ctx = Inr (gcodeSafeApproach op, ctx)"
| "emitChildren (Node i t p c) ctx indentDelta =
     emitEach (case c of None \<Rightarrow> [] | Some cs \<Rightarrow> cs) ctx indentDelta"
| "emitEach [] ctx indentDelta = Inr []"
| "emitEach (child # rest) ctx indentDelta =
     (case emitNode child (indented ctx indentDelta) of
        Inl e \<Rightarrow> Inl e
      | Inr (ls, c') \<Rightarrow>
          (case emitEach rest ctx indentDelta of
             Inl e \<Rightarrow> Inl e
           | Inr out \<Rightarrow> Inr (ls @ out)))"
  by pat_completeness auto

termination
  by (relation "measure (\<lambda>x. case x of
          Inl (Inl (n, ctx)) \<Rightarrow> 4 * size n + 3
        | Inl (Inr (k, n, w, ctx)) \<Rightarrow> 4 * size n + 2
        | Inr (Inl (n, ctx, d)) \<Rightarrow> 4 * size n + 1
        | Inr (Inr (ns, ctx, d)) \<Rightarrow> 4 * size_list size ns)")
     (auto split: option.splits)

text \<open>
  \<^verbatim>\<open>generateGCode()\<close>. \<open>emitRoots\<close> is its loop over \<^verbatim>\<open>state.tree\<close>, which passes
  the one context object to every root node. \<open>today\<close> is the text of
  \<^verbatim>\<open>new Date().toLocaleDateString()\<close>, read from the clock and the locale of the host.
\<close>

fun emitRoots :: "node list \<Rightarrow> EmitContext \<Rightarrow> error + (string list \<times> EmitContext)" where
  "emitRoots [] ctx = Inr ([], ctx)"
| "emitRoots (n # rest) ctx =
     (case emitNode n ctx of
        Inl e \<Rightarrow> Inl e
      | Inr (ls, ctx') \<Rightarrow>
          (case emitRoots rest ctx' of
             Inl e \<Rightarrow> Inl e
           | Inr (out, ctx'') \<Rightarrow> Inr (ls @ out, ctx'')))"

definition header :: "string \<Rightarrow> string list" where
  "header today =
     ['';Renishaw Probe Routine - Generated by Probe Builder'',
      '';Program: PROBE_ROUTINE.NC'',
      '';Date: '' @ today,
      [],
      '';Initialize program'',
      ''G0 G17 G40 G49 G80 G90'',
      []]"

definition footer :: "string list" where
  "footer = ['';End of probe routine'', ''G0 G53 Z0.'', ''M30'', []]"

definition generateGCode :: "string \<Rightarrow> node list \<Rightarrow> error + string" where
  "generateGCode today tr =
     (case emitRoots tr (createEmitContext 0 1000 0) of
        Inl e \<Rightarrow> Inl e
      | Inr (body, ctx') \<Rightarrow> Inr (joinWith [CHR 0x0A] (header today @ body @ footer)))"

section \<open>Vocabulary of the properties\<close>

text \<open>
  \<^verbatim>\<open>node.children || []\<close>, the list the source iterates where a node may lack children.
\<close>

definition childList :: "node \<Rightarrow> node list" where
  "childList n = (case children n of None \<Rightarrow> [] | Some cs \<Rightarrow> cs)"

text \<open>
  All nodes of a forest and their ids, in the order of \<^verbatim>\<open>walk\<close>. The ids of
  \<open>childList n\<close> are the ids of the descendants of \<open>n\<close>; \<open>ids [n]\<close> adds the id of
  \<open>n\<close> itself.
\<close>

fun nodes :: "node list \<Rightarrow> node list" where
  "nodes [] = []"
| "nodes (Node i t p c # rest) =
     Node i t p c # (case c of None \<Rightarrow> [] | Some cs \<Rightarrow> nodes cs) @ nodes rest"

definition ids :: "node list \<Rightarrow> string list" where
  "ids tr = map nid (nodes tr)"

text \<open>
  The search \<^verbatim>\<open>getNode\<close> performs, written as a recursion of its own; \<open>getNode_findPre\<close>
  below shows that it is what the \<^verbatim>\<open>walk\<close> with the callback of \<^verbatim>\<open>getNode\<close> computes.
\<close>

fun findPre :: "string \<Rightarrow> node list \<Rightarrow> node option" where
  "findPre ident [] = None"
| "findPre ident (Node i t p c # rest) =
     (if i = ident then Some (Node i t p c)
      else (case c of
              None \<Rightarrow> findPre ident rest
            | Some cs \<Rightarrow>
                (case findPre ident cs of Some r \<Rightarrow> Some r | None \<Rightarrow> findPre ident rest)))"

text \<open>Forests, a state and nodes on which the theorems are instantiated.\<close>

definition exLeaf :: "string \<Rightarrow> node" where
  "exLeaf i = Node i ''rapid-move'' [(''X'', PNum ''0''), (''Y'', PNum ''0''), (''Z'', PNum ''25'')] None"

definition exIf :: "string \<Rightarrow> node list \<Rightarrow> node" where
  "exIf i cs = Node i ''if-block''
     [(''left'', PStr ''#100''), (''op'', PStr ''GT''), (''right'', PStr ''#101'')] (Some cs)"

definition exFolder :: "string \<Rightarrow> node list \<Rightarrow> node" where
  "exFolder i cs = Node i ''folder'' [(''name'', PStr ''Setup A''), (''note'', PStr [])] (Some cs)"

definition exTree :: "node list" where
  "exTree = [exFolder ''f'' [exIf ''a'' [exLeaf ''b''], exLeaf ''c''], exLeaf ''z'']"

definition exState :: state where
  "exState = \<lparr>tree = [exFolder ''f'' [exFolder ''c'' []]], collapsed = {''f'', ''c''},
              expanded = {''f'', ''c''}, targetParentId = ''root'', showGCode = False\<rparr>"


section \<open>The tree store: searching\<close>

lemmas ex_defs = exTree_def exFolder_def exIf_def exLeaf_def

lemma nodes_append: "nodes (xs @ ys) = nodes xs @ nodes ys"
  by (induction xs rule: nodes.induct) auto

lemma ids_append: "ids (xs @ ys) = ids xs @ ids ys"
  by (simp add: ids_def nodes_append)

lemma ids_Nil: "ids [] = []"
  by (simp add: ids_def)

lemma ids_Cons: "ids (Node i t p c # rest) = i # ids (childList (Node i t p c)) @ ids rest"
  by (simp add: ids_def childList_def split: option.splits)

lemma walk_get:
  "walk tr (\<lambda>n parent out. if nid n = ident then (True, Some n) else (False, out)) parent None
     = (case findPre ident tr of None \<Rightarrow> (False, None) | Some n \<Rightarrow> (True, Some n))"
  by (induction ident tr arbitrary: parent rule: findPre.induct)
     (auto split: option.splits)

lemma getNode_findPre: "getNode ident tr = findPre ident tr"
  by (simp add: getNode_def walk_get split: option.splits)

lemma getNode_simps:
  "getNode ident [] = None"
  "getNode ident (Node i t p c # rest) =
     (if i = ident then Some (Node i t p c)
      else (case c of
              None \<Rightarrow> getNode ident rest
            | Some cs \<Rightarrow>
                (case getNode ident cs of Some r \<Rightarrow> Some r | None \<Rightarrow> getNode ident rest)))"
  by (simp_all add: getNode_findPre cong: option.case_cong)

lemma findPre_None: "(findPre ident tr = None) = (ident \<notin> set (ids tr))"
  by (induction ident tr rule: findPre.induct)
     (auto simp: ids_Nil ids_Cons childList_def split: option.splits)

lemma findPre_Some: "findPre ident tr = Some n \<Longrightarrow> nid n = ident \<and> n \<in> set (nodes tr)"
  by (induction ident tr rule: findPre.induct)
     (auto split: option.splits if_splits)

lemma getNode_None: "(getNode ident tr = None) = (ident \<notin> set (ids tr))"
  by (simp add: getNode_findPre findPre_None)

lemma getNode_Some: "getNode ident tr = Some n \<Longrightarrow> nid n = ident \<and> n \<in> set (nodes tr)"
  by (simp add: getNode_findPre findPre_Some)

lemma nodes_sub: "n \<in> set (nodes tr) \<Longrightarrow> set (nodes (childList n)) \<subseteq> set (nodes tr)"
  by (induction tr rule: nodes.induct)
     (auto simp: childList_def split: option.splits)

lemma ids_sub: "n \<in> set (nodes tr) \<Longrightarrow> set (ids (childList n)) \<subseteq> set (ids tr)"
  using nodes_sub [of n tr] by (auto simp: ids_def)

lemma nodes_top: "x \<in> set xs \<Longrightarrow> x \<in> set (nodes xs)"
  by (induction xs rule: nodes.induct) auto

lemma unique_node:
  assumes "distinct (ids tr)" "a \<in> set (nodes tr)" "b \<in> set (nodes tr)" "nid a = nid b"
  shows "a = b"
proof -
  have "inj_on nid (set (nodes tr))"
    using assms(1) by (simp add: ids_def distinct_map)
  with assms show ?thesis by (auto dest: inj_onD)
qed

lemma walk_desc:
  "walk kids (\<lambda>n parent found. if nid n = ident then (True, True) else (False, found)) parent False
     = (ident \<in> set (ids kids), ident \<in> set (ids kids))"
  by (induction kids arbitrary: parent rule: nodes.induct)
     (auto simp: ids_Nil ids_Cons childList_def split: option.splits bool.splits)

lemma isDescendant_ids:
  "isDescendant a d tr =
     (case getNode a tr of None \<Rightarrow> False | Some n \<Rightarrow> d \<in> set (ids (childList n)))"
  by (simp add: isDescendant_def walk_desc childList_def ids_Nil split: option.splits)

section \<open>The tree store: removing and inserting\<close>

lemma findIndex_Some:
  "findIndex P xs = Some k \<Longrightarrow> k < length xs \<and> P (xs ! k)"
  by (induction xs arbitrary: k) (auto split: if_splits)

lemma findIndex_None: "findIndex P xs = None \<Longrightarrow> x \<in> set xs \<Longrightarrow> \<not> P x"
  by (induction xs) (auto split: if_splits)

lemma ids_splice_out:
  assumes "k < length xs"
  shows "mset (ids xs) = mset (ids (take k xs @ drop (Suc k) xs)) + mset (ids [xs ! k])"
proof -
  have "xs = take k xs @ [xs ! k] @ drop (Suc k) xs"
    using assms by (simp add: id_take_nth_drop)
  then have "ids xs = ids (take k xs) @ ids [xs ! k] @ ids (drop (Suc k) xs)"
    by (metis ids_append)
  then show ?thesis
    by (simp add: ids_append)
qed

lemma remove_None:
  "(removeNode ident xs = (None, ys) \<longrightarrow> ys = xs \<and> ident \<notin> set (ids xs))"
  "(removeIn ident xs = (None, ys) \<longrightarrow> ys = xs \<and> (\<forall>x\<in>set xs. ident \<notin> set (ids (childList x))))"
proof (induction ident xs and ident xs arbitrary: ys and ys rule: removeNode_removeIn.induct)
  case (1 ident list)
  show ?case
  proof (cases "findIndex (\<lambda>n. nid n = ident) list")
    case None
    have top: "\<forall>x\<in>set list. nid x \<noteq> ident"
      using findIndex_None [OF None] by blast
    have "ident \<notin> set (ids list)" if "\<forall>x\<in>set list. ident \<notin> set (ids (childList x))"
      using that top
      by (induction list rule: nodes.induct) (auto simp: ids_Nil ids_Cons)
    with 1 None show ?thesis by (auto simp: removeNode.simps)
  next
    case (Some k)
    then show ?thesis by (simp add: removeNode.simps)
  qed
next
  case (2 ident)
  show ?case by simp
next
  case (3 ident i t p rest)
  then show ?case by (auto simp: childList_def ids_Nil split: prod.splits)
next
  case (4 ident i t p cs rest)
  then show ?case
    by (auto simp: childList_def split: prod.splits option.splits)
qed

lemma remove_Some:
  "(removeNode ident xs = (Some r, ys) \<longrightarrow>
      nid r = ident \<and> r \<in> set (nodes xs) \<and> mset (ids xs) = mset (ids ys) + mset (ids [r]))"
  "(removeIn ident xs = (Some r, ys) \<longrightarrow>
      nid r = ident \<and> r \<in> set (nodes xs) \<and> mset (ids xs) = mset (ids ys) + mset (ids [r]))"
proof (induction ident xs and ident xs arbitrary: ys and ys rule: removeNode_removeIn.induct)
  case (1 ident list)
  show ?case
  proof (cases "findIndex (\<lambda>n. nid n = ident) list")
    case None
    with 1 show ?thesis by (simp add: removeNode.simps)
  next
    case (Some k)
    from findIndex_Some [OF Some] have k: "k < length list" "nid (list ! k) = ident"
      by auto
    then have "list ! k \<in> set (nodes list)"
      by (simp add: nodes_top)
    with k Some ids_splice_out [OF k(1)] show ?thesis by (auto simp: removeNode.simps)
  qed
next
  case (2 ident)
  show ?case by simp
next
  case (3 ident i t p rest)
  then show ?case
    by (auto simp: ids_Cons childList_def split: prod.splits)
next
  case (4 ident i t p cs rest)
  then show ?case
    by (auto simp: ids_Cons childList_def split: prod.splits option.splits)
qed

lemma mutate_found:
  "fst (mutateNode ident f tr) = (findPre ident tr \<noteq> None) \<and>
   (findPre ident tr = None \<longrightarrow> snd (mutateNode ident f tr) = tr)"
  by (induction ident tr rule: findPre.induct)
     (auto split: option.splits prod.splits bool.splits)

lemma mutate_get:
  assumes "findPre ident tr = Some P" "nid (f P) = ident"
  shows "findPre ident (snd (mutateNode ident f tr)) = Some (f P)"
  using assms
proof (induction ident tr rule: findPre.induct)
  case (1 ident)
  then show ?case by simp
next
  case (2 ident i t p c rest)
  show ?case
  proof (cases "i = ident")
    case True
    with 2 show ?thesis by (cases "f (Node i t p c)") auto
  next
    case False
    show ?thesis
    proof (cases c)
      case None
      with 2 False show ?thesis by (auto split: prod.splits)
    next
      case (Some cs)
      show ?thesis
      proof (cases "findPre ident cs")
        case None
        with 2 False Some mutate_found [of ident f cs] show ?thesis
          by (auto split: prod.splits bool.splits)
      next
        case (Some r)
        with 2 False \<open>c = Some cs\<close> mutate_found [of ident f cs] show ?thesis
          by (auto split: prod.splits bool.splits)
      qed
    qed
  qed
qed

lemma spliceStart_cases:
  "spliceStart PosInf len = len"
  "int len \<le> j \<Longrightarrow> spliceStart (Idx j) len = len"
  "0 \<le> j \<Longrightarrow> j \<le> int len \<Longrightarrow> spliceStart (Idx j) len = nat j"
  "j < 0 \<Longrightarrow> spliceStart (Idx j) len = len - nat (- j)"
proof -
  show "spliceStart PosInf len = len"
    by (simp add: spliceStart_def)
  show "int len \<le> j \<Longrightarrow> spliceStart (Idx j) len = len"
    by (auto simp: spliceStart_def Let_def)
  show "0 \<le> j \<Longrightarrow> j \<le> int len \<Longrightarrow> spliceStart (Idx j) len = nat j"
    by (simp add: spliceStart_def Let_def)
  show "j < 0 \<Longrightarrow> spliceStart (Idx j) len = len - nat (- j)"
    unfolding spliceStart_def Let_def by (simp add: max_def) arith
qed

lemma spliceIn_cases:
  "spliceIn PosInf x xs = xs @ [x]"
  "int (length xs) \<le> j \<Longrightarrow> spliceIn (Idx j) x xs = xs @ [x]"
  "0 \<le> j \<Longrightarrow> j \<le> int (length xs) \<Longrightarrow> spliceIn (Idx j) x xs = take (nat j) xs @ x # drop (nat j) xs"
  "j < 0 \<Longrightarrow> spliceIn (Idx j) x xs
      = take (length xs - nat (- j)) xs @ x # drop (length xs - nat (- j)) xs"
  by (simp_all add: spliceIn_def spliceStart_cases Let_def)

section \<open>The emitter\<close>

lemmas emit_defs = TOOL_BY_ID_def TOOLS_def objectPrototypeKeys_def createEmitContext_def
  line_def indented_def nextLabel_def loopIndex_def param_def showNat.simps digitChar_def
  gcodeRapidMove_def folderName_def toUpperCase_def upperChar_def

lemma TOOL_BY_ID_key: "TOOL_BY_ID t = Some (Tool k) \<Longrightarrow> toolKey k = t"
  by (auto simp: TOOL_BY_ID_def TOOLS_def split: if_splits option.splits)

lemma TOOL_BY_ID_tool: "TOOL_BY_ID (toolKey k) = Some (Tool k)"
  by (cases k) (simp_all add: TOOL_BY_ID_def TOOLS_def)




lemma emitRoots_append:
  "emitRoots (xs @ ys) ctx =
     (case emitRoots xs ctx of
        Inl e \<Rightarrow> Inl e
      | Inr (a, c1) \<Rightarrow>
          (case emitRoots ys c1 of Inl e \<Rightarrow> Inl e | Inr (b, c2) \<Rightarrow> Inr (a @ b, c2)))"
  by (induction xs arbitrary: ctx) (auto split: sum.splits prod.splits)



lemma gcode_ctx:
  "gcode k op w ctx = Inr (raw, ctx') \<Longrightarrow>
     ctx' = (if k = IfBlock then ctx\<lparr>labelSeed := labelSeed ctx + 1\<rparr> else ctx)"
  by (cases k) (auto simp: nextLabel_def Let_def split: sum.splits prod.splits)

lemma emitNode_ctx:
  assumes "emitNode n ctx = Inr (ls, ctx')"
  shows "ctx' = (if toolId n = ''if-block'' then ctx\<lparr>labelSeed := labelSeed ctx + 1\<rparr> else ctx)"
proof (cases n)
  case (Node i t p c)
  show ?thesis
  proof (cases "TOOL_BY_ID t")
    case None
    then have "t \<noteq> ''if-block''"
      using TOOL_BY_ID_tool [of IfBlock] by auto
    with assms Node None show ?thesis by simp
  next
    case (Some e)
    show ?thesis
    proof (cases e)
      case Inherited
      then have "t \<noteq> ''if-block''"
        using Some TOOL_BY_ID_tool [of IfBlock] by auto
      with assms Node Some Inherited show ?thesis by simp
    next
      case (Tool k)
      have "(k = IfBlock) = (t = ''if-block'')"
        using Some Tool TOOL_BY_ID_key [of t k] TOOL_BY_ID_tool [of IfBlock] by auto
      with assms Node Some Tool show ?thesis
        by (auto split: sum.splits prod.splits dest!: gcode_ctx)
    qed
  qed
qed

lemma emitRoots_ctx:
  "emitRoots tr ctx = Inr (body, ctx') \<Longrightarrow>
     ctx' = ctx\<lparr>labelSeed := labelSeed ctx + length (filter (\<lambda>n. toolId n = ''if-block'') tr)\<rparr>"
proof (induction tr arbitrary: ctx body)
  case Nil
  then show ?case by simp
next
  case (Cons n tr)
  from Cons.prems obtain ls c1 out where
    parts: "emitNode n ctx = Inr (ls, c1)" "emitRoots tr c1 = Inr (out, ctx')"
    by (auto split: sum.splits prod.splits)
  from emitNode_ctx [OF parts(1)] Cons.IH [OF parts(2)] show ?case
    by auto
qed

section \<open>Properties of the specification\<close>

subsection \<open>C1: labels along a path of nested containers\<close>

text \<open>
  C1 says that within one emission pass the label an ancestor's callback obtains from
  \<^verbatim>\<open>nextLabel\<close> differs from the label a descendant's callback obtains later, and that
  only sibling subtrees may repeat a label. The source does not do this. The callback of an
  IF block advances the counter of the original context, but \<^verbatim>\<open>emitChildren\<close> is called
  on the copy made by \<^verbatim>\<open>emitNode\<close>, whose \<^verbatim>\<open>labelSeed\<close> still holds the value from before
  the call; every child context starts from that value. For an IF block nested in an IF
  block at the root, both obtain the label 1000, and the emitted program holds the lines
  \<^verbatim>\<open>N1000\<close> and \<^verbatim>\<open>N1000_END\<close> twice.
\<close>

theorem nested_if_same_label:
  "emitNode (exIf ''a'' [exIf ''b'' []]) (createEmitContext 0 1000 0)
     = Inr ([''IF [#100 GT #101] GOTO 1000'',
             ifComment,
             ''GOTO 1000_END'',
             ''N1000'',
             ''  IF [#100 GT #101] GOTO 1000'',
             ''  '' @ ifComment,
             ''  GOTO 1000_END'',
             ''  N1000'',
             ''  N1000_END'',
             ''  '',
             ''N1000_END'',
             []],
            createEmitContext 0 1001 0)"
  by (simp add: exIf_def emit_defs)

subsection \<open>C2: rejected moves\<close>

text \<open>
  C2: \<^verbatim>\<open>moveNode(id, id, index)\<close>, and \<^verbatim>\<open>moveNode(id, d, index)\<close> for \<open>d\<close> the id of a
  descendant of the node \<^verbatim>\<open>getNode(id)\<close> finds, return the forest as it was, for every
  forest, id and index; the function has no failing branch. The text \<^verbatim>\<open>"root"\<close> denotes
  the root level and is not the id of a node, so \<open>d\<close> is taken different from it.
\<close>

theorem moveNode_rejected:
  "moveNode ident ident index tr = tr \<and>
   (getNode ident tr = Some n \<and> d \<in> set (ids (childList n)) \<and> d \<noteq> ''root''
      \<longrightarrow> moveNode ident d index tr = tr)"
  by (simp add: moveNode_def isDescendant_ids)

theorem moveNode_rejected_witness:
  "getNode ''f'' exTree = Some (exFolder ''f'' [exIf ''a'' [exLeaf ''b''], exLeaf ''c'']) \<and>
   ''b'' \<in> set (ids (childList (exFolder ''f'' [exIf ''a'' [exLeaf ''b''], exLeaf ''c'']))) \<and>
   moveNode ''f'' ''f'' PosInf exTree = exTree \<and>
   moveNode ''f'' ''b'' PosInf exTree = exTree"
proof -
  have g: "getNode ''f'' exTree = Some (exFolder ''f'' [exIf ''a'' [exLeaf ''b''], exLeaf ''c''])"
    by (simp add: ex_defs getNode_simps)
  have d: "''b'' \<in> set (ids (childList (exFolder ''f'' [exIf ''a'' [exLeaf ''b''], exLeaf ''c''])))"
    by (simp add: ex_defs childList_def ids_def)
  show ?thesis
    using g d moveNode_rejected [of "''f''" PosInf exTree
        "exFolder ''f'' [exIf ''a'' [exLeaf ''b''], exLeaf ''c'']" "''b''"]
    by simp
qed

subsection \<open>C3: inserting under a parent that does not resolve\<close>

text \<open>
  C3 says that \<^verbatim>\<open>insertNode\<close> changes nothing unless \<^verbatim>\<open>parentId\<close> denotes the root or a
  container. The source looks the parent up with \<^verbatim>\<open>getNode\<close> and never consults the tools
  registry: a parent that exists and has no children is given an empty array, and the node
  is inserted there. At a forest of one rapid move with id \<open>a\<close>, inserting under \<open>a\<close>
  gives that node a children sequence.
\<close>

theorem insertNode_leaf_parent:
  "\<not> isContainer (toolId (exLeaf ''a'')) \<and>
   insertNode (exLeaf ''n'') ''a'' PosInf [exLeaf ''a'']
     = [Node ''a'' ''rapid-move'' (params (exLeaf ''a'')) (Some [exLeaf ''n''])] \<and>
   insertNode (exLeaf ''n'') ''a'' PosInf [exLeaf ''a''] \<noteq> [exLeaf ''a'']"
  by (simp add: insertNode_def getNode_simps exLeaf_def isContainer_def TOOL_BY_ID_def TOOLS_def
      insertInto_def spliceIn_def spliceStart_def)

text \<open>
  C3, as the source has it: when \<^verbatim>\<open>parentId\<close> is neither \<^verbatim>\<open>"root"\<close>, nor empty, nor the
  id of any node of the forest, \<^verbatim>\<open>insertNode\<close> returns the forest unchanged.
\<close>

theorem insertNode_unknown_parent:
  assumes "parentId \<noteq> ''root''" "parentId \<noteq> []" "parentId \<notin> set (ids tr)"
  shows "insertNode n parentId index tr = tr"
proof -
  have "getNode parentId tr = None"
    using assms(3) by (simp add: getNode_None)
  with assms(1,2) show ?thesis by (simp add: insertNode_def)
qed

theorem insertNode_unknown_parent_witness:
  "''q'' \<notin> set (ids exTree) \<and> insertNode (exLeaf ''n'') ''q'' (Idx 0) exTree = exTree"
proof -
  have h: "''q'' \<notin> set (ids exTree)"
    by (simp add: ex_defs ids_def)
  show ?thesis
    using h insertNode_unknown_parent [of "''q''" exTree "exLeaf ''n''" "Idx 0"] by simp
qed

subsection \<open>C4: removal detaches the whole subtree\<close>

text \<open>
  C4: in a forest whose ids are pairwise distinct, \<^verbatim>\<open>removeNode(id)\<close> for an id of the
  forest returns the node \<^verbatim>\<open>getNode(id)\<close> finds; the ids left are those of the forest
  without the ids of that node and of its descendants; and afterwards \<^verbatim>\<open>getNode\<close> finds
  none of these ids.
\<close>

theorem removeNode_cascade:
  assumes "distinct (ids tr)" "ident \<in> set (ids tr)"
  shows "\<exists>n tr'. removeNode ident tr = (Some n, tr') \<and> getNode ident tr = Some n \<and>
           mset (ids tr) = mset (ids tr') + mset (ids [n]) \<and>
           (\<forall>d\<in>set (ids [n]). getNode d tr' = None)"
proof -
  obtain r tr' where rm: "removeNode ident tr = (r, tr')"
    by (cases "removeNode ident tr")
  have "r \<noteq> None"
    using remove_None(1) [of ident tr tr'] rm assms(2) by auto
  then obtain n where n: "removeNode ident tr = (Some n, tr')"
    using rm by auto
  from remove_Some(1) [of ident tr n tr'] n
  have fact: "nid n = ident" "n \<in> set (nodes tr)" "mset (ids tr) = mset (ids tr') + mset (ids [n])"
    by auto
  obtain m where m: "getNode ident tr = Some m"
    using assms(2) getNode_None [of ident tr] by auto
  have "m = n"
    using unique_node [OF assms(1), of m n] getNode_Some [OF m] fact by simp
  moreover have "getNode d tr' = None" if "d \<in> set (ids [n])" for d
  proof -
    have "mset (ids tr) = mset (ids tr' @ ids [n])"
      using fact(3) by simp
    then have "distinct (ids tr' @ ids [n])"
      using assms(1) mset_eq_imp_distinct_iff by blast
    then have "d \<notin> set (ids tr')"
      using that by auto
    then show ?thesis by (simp add: getNode_None)
  qed
  ultimately show ?thesis
    using n m fact by auto
qed

theorem removeNode_cascade_witness:
  "distinct (ids exTree) \<and> ''f'' \<in> set (ids exTree) \<and>
   snd (removeNode ''f'' exTree) = [exLeaf ''z''] \<and>
   getNode ''f'' (snd (removeNode ''f'' exTree)) = None \<and>
   getNode ''a'' (snd (removeNode ''f'' exTree)) = None \<and>
   getNode ''b'' (snd (removeNode ''f'' exTree)) = None \<and>
   getNode ''c'' (snd (removeNode ''f'' exTree)) = None"
proof -
  have h: "distinct (ids exTree)" "''f'' \<in> set (ids exTree)"
    by (simp_all add: ex_defs ids_def)
  have r: "removeNode ''f'' exTree
             = (Some (exFolder ''f'' [exIf ''a'' [exLeaf ''b''], exLeaf ''c'']), [exLeaf ''z''])"
    by (simp add: ex_defs removeNode.simps)
  have i: "ids [exFolder ''f'' [exIf ''a'' [exLeaf ''b''], exLeaf ''c'']] = [''f'', ''a'', ''b'', ''c'']"
    by (simp add: ex_defs ids_def)
  show ?thesis
    using h removeNode_cascade [OF h] by (simp add: r i)
qed

subsection \<open>C5: a tool id that does not resolve\<close>



subsection \<open>C6: indentation of the children of a container\<close>




subsection \<open>C7: the position of an inserted node\<close>

text \<open>
  C7 says that the index is clamped to the range from 0 to the length of the destination,
  so that a negative index inserts at the front. The source clamps from above only and
  hands the index to \<^verbatim>\<open>splice\<close>, which counts a negative index from the end: index
  \<open>-1\<close> into a sequence of two nodes inserts between them.
\<close>

theorem insertNode_negative_index:
  "insertNode (exLeaf ''n'') ''root'' (Idx (- 1)) [exLeaf ''a'', exLeaf ''b'']
     = [exLeaf ''a'', exLeaf ''n'', exLeaf ''b'']"
  by (simp add: insertNode_def spliceIn_def spliceStart_def)

text \<open>
  C7, as the source has it. With \<^verbatim>\<open>"root"\<close> or an empty \<^verbatim>\<open>parentId\<close> the destination is
  the root sequence; with the id of a node it is the children of the node \<^verbatim>\<open>getNode\<close>
  finds, which holds the new sequence afterwards. In a destination \<open>xs\<close> the node is placed
  at the end for \<^verbatim>\<open>Infinity\<close> and for every index from the length on; at the index itself
  for an index from 0 to the length; and for a negative index \<open>j\<close> at \<open>- j\<close> places
  before the end, stopping at the front.
\<close>

theorem insertNode_position:
  "(parentId = ''root'' \<or> parentId = [] \<longrightarrow> insertNode n parentId index tr = spliceIn index n tr) \<and>
   (parentId \<noteq> ''root'' \<and> parentId \<noteq> [] \<and> getNode parentId tr = Some (Node i t p c) \<longrightarrow>
      getNode parentId (insertNode n parentId index tr)
        = Some (Node i t p (Some (spliceIn index n (childList (Node i t p c)))))) \<and>
   spliceIn PosInf n xs = xs @ [n] \<and>
   (int (length xs) \<le> j \<longrightarrow> spliceIn (Idx j) n xs = xs @ [n]) \<and>
   (0 \<le> j \<and> j \<le> int (length xs) \<longrightarrow>
      spliceIn (Idx j) n xs = take (nat j) xs @ n # drop (nat j) xs) \<and>
   (j < 0 \<longrightarrow>
      spliceIn (Idx j) n xs
        = take (length xs - nat (- j)) xs @ n # drop (length xs - nat (- j)) xs)"
proof -
  have "getNode parentId (insertNode n parentId index tr)
          = Some (Node i t p (Some (spliceIn index n (childList (Node i t p c)))))"
    if h: "parentId \<noteq> ''root''" "parentId \<noteq> []" "getNode parentId tr = Some (Node i t p c)"
  proof -
    have i: "i = parentId"
      using getNode_Some [OF h(3)] by simp
    have "findPre parentId (snd (mutateNode parentId (insertInto n index) tr))
            = Some (insertInto n index (Node i t p c))"
      using h(3) i by (intro mutate_get) (simp_all add: getNode_findPre insertInto_def)
    then show ?thesis
      using h by (simp add: insertNode_def getNode_findPre insertInto_def childList_def)
  qed
  moreover have "insertNode n parentId index tr = spliceIn index n tr"
    if "parentId = ''root'' \<or> parentId = []"
    using that by (auto simp: insertNode_def)
  ultimately show ?thesis
    by (simp add: spliceIn_cases)
qed

theorem insertNode_position_witness:
  "insertNode (exLeaf ''n'') ''root'' (Idx 7) exTree = exTree @ [exLeaf ''n''] \<and>
   insertNode (exLeaf ''n'') ''root'' (Idx 1) exTree
     = [exFolder ''f'' [exIf ''a'' [exLeaf ''b''], exLeaf ''c''], exLeaf ''n'', exLeaf ''z''] \<and>
   insertNode (exLeaf ''n'') ''root'' (Idx (- 1)) exTree
     = [exFolder ''f'' [exIf ''a'' [exLeaf ''b''], exLeaf ''c''], exLeaf ''n'', exLeaf ''z''] \<and>
   getNode ''f'' (insertNode (exLeaf ''n'') ''f'' (Idx 7) exTree)
     = Some (exFolder ''f'' [exIf ''a'' [exLeaf ''b''], exLeaf ''c'', exLeaf ''n''])"
proof -
  let ?n = "exLeaf ''n''"
  have len: "length exTree = 2"
    by (simp add: exTree_def)
  have g: "getNode ''f'' exTree
             = Some (Node ''f'' ''folder'' [(''name'', PStr ''Setup A''), (''note'', PStr [])]
                      (Some [exIf ''a'' [exLeaf ''b''], exLeaf ''c'']))"
    by (simp add: ex_defs getNode_simps)
  have a: "insertNode ?n ''root'' (Idx 7) exTree = exTree @ [?n]"
    using insertNode_position [of "''root''" ?n "Idx 7" exTree i t p c exTree 7] len by simp
  have b: "insertNode ?n ''root'' (Idx 1) exTree = take 1 exTree @ ?n # drop 1 exTree"
    using insertNode_position [of "''root''" ?n "Idx 1" exTree i t p c exTree 1] len by simp
  have c: "insertNode ?n ''root'' (Idx (- 1)) exTree = take 1 exTree @ ?n # drop 1 exTree"
    using insertNode_position [of "''root''" ?n "Idx (- 1)" exTree i t p c exTree "- 1"] len by simp
  have d: "getNode ''f'' (insertNode ?n ''f'' (Idx 7) exTree)
             = Some (exFolder ''f'' ([exIf ''a'' [exLeaf ''b''], exLeaf ''c''] @ [?n]))"
    using g insertNode_position [of "''f''" ?n "Idx 7" exTree "''f''" "''folder''"
        "[(''name'', PStr ''Setup A''), (''note'', PStr [])]"
        "Some [exIf ''a'' [exLeaf ''b''], exLeaf ''c'']" "[exIf ''a'' [exLeaf ''b''], exLeaf ''c'']" 7]
    by (simp add: childList_def exFolder_def)
  show ?thesis
    using a b c d by (simp add: exTree_def)
qed

subsection \<open>C8: moving to a parent that does not exist\<close>

text \<open>
  C8: when the forest holds a node with the given id and \<^verbatim>\<open>targetParentId\<close> is neither
  \<^verbatim>\<open>"root"\<close>, nor empty, nor the id of any node, \<^verbatim>\<open>moveNode\<close> returns the forest as
  \<^verbatim>\<open>removeNode\<close> leaves it: the ids of the removed node and of its descendants are gone
  from it, nothing is inserted, and the forest is not the one before the call.
\<close>

theorem moveNode_unknown_target:
  assumes "ident \<in> set (ids tr)" "target \<notin> set (ids tr)" "target \<noteq> ''root''" "target \<noteq> []"
  shows "\<exists>n tr'. removeNode ident tr = (Some n, tr') \<and> nid n = ident \<and>
           moveNode ident target index tr = tr' \<and>
           mset (ids tr) = mset (ids tr') + mset (ids [n]) \<and> tr' \<noteq> tr"
proof -
  obtain r tr' where rm: "removeNode ident tr = (r, tr')"
    by (cases "removeNode ident tr")
  have "r \<noteq> None"
    using remove_None(1) [of ident tr tr'] rm assms(1) by auto
  then obtain n where n: "removeNode ident tr = (Some n, tr')"
    using rm by auto
  from remove_Some(1) [of ident tr n tr'] n
  have fact: "nid n = ident" "n \<in> set (nodes tr)" "mset (ids tr) = mset (ids tr') + mset (ids [n])"
    by auto
  have ne: "ident \<noteq> target"
    using assms by auto
  have nodesc: "\<not> isDescendant ident target tr"
  proof -
    obtain m where m: "getNode ident tr = Some m"
      using assms(1) getNode_None [of ident tr] by auto
    then have "set (ids (childList m)) \<subseteq> set (ids tr)"
      using getNode_Some [OF m] ids_sub by blast
    with m assms(2) show ?thesis
      by (auto simp: isDescendant_ids)
  qed
  have "set (ids tr') \<subseteq> set (ids tr)"
    using fact(3) by (metis mset_subset_eqD mset_subset_eq_add_left set_mset_mset subsetI)
  then have "getNode target tr' = None"
    using assms(2) by (auto simp: getNode_None)
  then have mv: "moveNode ident target index tr = tr'"
    using ne nodesc n assms(3,4) by (simp add: moveNode_def insertNode_def)
  have "length (ids tr') < length (ids tr)"
  proof -
    have "size (mset (ids tr)) = size (mset (ids tr')) + size (mset (ids [n]))"
      using fact(3) by simp
    moreover have "ids [n] \<noteq> []"
      by (cases n) (simp add: ids_Cons)
    ultimately show ?thesis by (cases "ids [n]") auto
  qed
  then have "tr' \<noteq> tr" by auto
  with n fact mv show ?thesis by auto
qed

theorem moveNode_unknown_target_witness:
  "''a'' \<in> set (ids exTree) \<and> ''q'' \<notin> set (ids exTree) \<and>
   moveNode ''a'' ''q'' PosInf exTree = [exFolder ''f'' [exLeaf ''c''], exLeaf ''z''] \<and>
   getNode ''b'' (moveNode ''a'' ''q'' PosInf exTree) = None"
proof -
  have h: "''a'' \<in> set (ids exTree)" "''q'' \<notin> set (ids exTree)"
    by (simp_all add: ex_defs ids_def)
  have r: "removeNode ''a'' exTree
             = (Some (exIf ''a'' [exLeaf ''b'']), [exFolder ''f'' [exLeaf ''c''], exLeaf ''z''])"
    by (simp add: ex_defs removeNode.simps)
  have g: "getNode ''b'' [exFolder ''f'' [exLeaf ''c''], exLeaf ''z''] = None"
    by (simp add: ex_defs getNode_simps)
  show ?thesis
    using h g moveNode_unknown_target [OF h, of PosInf] by (simp add: r)
qed

subsection \<open>C9: the generated program\<close>

text \<open>
  C9 says that the program text depends on the forest alone and that its header is the
  same in every call. The third line of the header is the date of the host, so the
  programs of one forest generated on two days differ.
\<close>

theorem generateGCode_date:
  "generateGCode ''1/1/2026'' [] \<noteq> generateGCode ''1/2/2026'' []"
  by (simp add: generateGCode_def header_def footer_def)

text \<open>
  C9, as the source has it: the text depends on the forest and on the date text of the
  host. Whenever \<^verbatim>\<open>generateGCode\<close> returns a text for a forest \<open>xs @ ys\<close>, the text is
  the header with that date, the lines of the roots \<open>xs\<close>, the lines of the roots
  \<open>ys\<close> and the footer, joined by line feeds; the roots are emitted in order with one
  context, which starts at indent 0, label 1000 and loop depth 0 and reaches \<open>ys\<close> with
  the label advanced by the number of IF blocks among \<open>xs\<close>; and the lines of a single
  root are those of \<^verbatim>\<open>emitNode\<close>.
\<close>

theorem generateGCode_structure:
  assumes "generateGCode today (xs @ ys) = Inr text"
  shows "\<exists>a c1 b c2.
           emitRoots xs (createEmitContext 0 1000 0) = Inr (a, c1) \<and>
           c1 = createEmitContext 0
                  (1000 + length (filter (\<lambda>n. toolId n = ''if-block'') xs)) 0 \<and>
           emitRoots ys c1 = Inr (b, c2) \<and>
           text = joinWith [CHR 0x0A] (header today @ a @ b @ footer) \<and>
           emitRoots [n] c = emitNode n c"
proof -
  from assms obtain a c1 b c2 where
    parts: "emitRoots xs (createEmitContext 0 1000 0) = Inr (a, c1)"
      "emitRoots ys c1 = Inr (b, c2)"
      "text = joinWith [CHR 0x0A] (header today @ a @ b @ footer)"
    by (auto simp: generateGCode_def emitRoots_append split: sum.splits prod.splits)
  have "c1 = createEmitContext 0
               (1000 + length (filter (\<lambda>n. toolId n = ''if-block'') xs)) 0"
    using emitRoots_ctx [OF parts(1)] by (simp add: createEmitContext_def)
  moreover have "emitRoots [n] c = emitNode n c"
    by (simp split: sum.splits prod.splits)
  ultimately show ?thesis
    using parts by blast
qed

theorem generateGCode_structure_witness:
  "generateGCode ''1/1/2026'' ([exIf ''a'' []] @ [exIf ''b'' []])
     = Inr (joinWith [CHR 0x0A]
              (header ''1/1/2026''
               @ [''IF [#100 GT #101] GOTO 1000'', ifComment, ''GOTO 1000_END'', ''N1000'',
                  ''N1000_END'', []]
               @ [''IF [#100 GT #101] GOTO 1001'', ifComment, ''GOTO 1001_END'', ''N1001'',
                  ''N1001_END'', []]
               @ footer)) \<and>
   emitRoots [exIf ''b'' []] (createEmitContext 0 1001 0)
     = Inr ([''IF [#100 GT #101] GOTO 1001'', ifComment, ''GOTO 1001_END'', ''N1001'',
             ''N1001_END'', []],
            createEmitContext 0 1002 0)"
proof -
  have e: "emitNode (exIf q []) \<lparr>indent = 0, labelSeed = s, loopDepth = 0\<rparr>
             = Inr ([''IF [#100 GT #101] GOTO '' @ showNat s, ifComment,
                     ''GOTO '' @ showNat s @ ''_END'', ''N'' @ showNat s,
                     ''N'' @ showNat s @ ''_END'', []],
                    \<lparr>indent = 0, labelSeed = Suc s, loopDepth = 0\<rparr>)" for q s
    by (simp add: exIf_def TOOL_BY_ID_def TOOLS_def nextLabel_def line_def param_def)
  have n: "showNat 1000 = ''1000''" "showNat 1001 = ''1001''"
    by (simp_all add: showNat.simps digitChar_def)
  have g: "generateGCode ''1/1/2026'' ([exIf ''a'' []] @ [exIf ''b'' []])
     = Inr (joinWith [CHR 0x0A]
              (header ''1/1/2026''
               @ [''IF [#100 GT #101] GOTO 1000'', ifComment, ''GOTO 1000_END'', ''N1000'',
                  ''N1000_END'', []]
               @ [''IF [#100 GT #101] GOTO 1001'', ifComment, ''GOTO 1001_END'', ''N1001'',
                  ''N1001_END'', []]
               @ footer))"
    by (simp add: generateGCode_def createEmitContext_def e n)
  show ?thesis
    using g generateGCode_structure [OF g]
    by (simp add: createEmitContext_def e n)
qed

subsection \<open>C10: the sets of collapsed and expanded ids after a deletion\<close>

text \<open>
  C10 says that deleting a node removes its id and the ids of all its descendants from the
  sets \<^verbatim>\<open>collapsed\<close> and \<^verbatim>\<open>expanded\<close>. \<^verbatim>\<open>deleteNode\<close> deletes the one id it was given
  from both sets. After the confirmed deletion of a folder \<open>f\<close> that holds a folder
  \<open>c\<close>, the forest is empty and \<open>c\<close> is still a member of both sets.
\<close>

theorem deleteNode_keeps_descendant_ids:
  "tree (deleteNode ''f'' True exState) = [] \<and>
   ''c'' \<in> expanded (deleteNode ''f'' True exState) \<and>
   ''c'' \<in> collapsed (deleteNode ''f'' True exState)"
  by (simp add: deleteNode_def exState_def exFolder_def getNode_simps removeNode.simps)

end
